theory Spec2Isabelle
  imports Main "HOL-Library.Multiset"
begin

section \<open>The grammar extractor of anc\_masc\_ptb\_extract.py\<close>

text \<open>
  The program is one script. It asks a treebank reader for the parsed sentences of every
  file, normalises each sentence tree, and collects the string of every production of the
  normalised tree in one of two sets:
  \<^verbatim>\<open>
  terminal = set()
  binary = set()
  for fileid in reader.fileids():
      for sent in reader.parsed_sents(fileid):
          if sent.label() != 'CODE':
              try:
                  sent.chomsky_normal_form()
                  for p in sent.productions():
                      if p.is_lexical():
                          terminal.add(p.unicode_repr())
                      else:
                          binary.add(p.unicode_repr())
              except Exception:
                  pass
  \<close>
  The tree and production classes and their methods belong to the parsing library the
  script imports; their code is not part of the repository. The script is therefore
  modelled over a record of the five methods it calls, and everything proved about the
  script holds for every such record. A corpus is the list of files, each the list of its
  sentences, in the order the reader yields them.
\<close>

subsection \<open>Exceptions, the library interface and the two sets\<close>

text \<open>A Python exception that \<^verbatim>\<open>except Exception\<close> catches; the string is its class name.\<close>

datatype exn = Exception string

text \<open>
  The methods of the library the script calls, on sentences of type \<open>'t\<close> and productions
  of type \<open>'p\<close>. \<^verbatim>\<open>chomsky_normal_form\<close> changes the tree in place: it returns the changed
  tree, or raises. \<^verbatim>\<open>productions\<close> returns the whole list of productions before the loop
  body runs, or raises. \<^verbatim>\<open>is_lexical\<close> and \<^verbatim>\<open>unicode_repr\<close> inspect a production that has
  already been built and are total.
\<close>

record ('t, 'p) library =
  label :: "'t \<Rightarrow> string"
  chomsky_normal_form :: "'t \<Rightarrow> exn + 't"
  productions :: "'t \<Rightarrow> exn + 'p list"
  is_lexical :: "'p \<Rightarrow> bool"
  unicode_repr :: "'p \<Rightarrow> string"

text \<open>The two global sets of the script.\<close>

record grammar =
  terminal :: "string set"
  binary :: "string set"

subsection \<open>The script\<close>

text \<open>The body of the loop over the productions of one sentence.\<close>

definition add_production :: "('t, 'p) library \<Rightarrow> 'p \<Rightarrow> grammar \<Rightarrow> grammar" where
  "add_production lib p g =
     (if is_lexical lib p
      then g\<lparr>terminal := insert (unicode_repr lib p) (terminal g)\<rparr>
      else g\<lparr>binary := insert (unicode_repr lib p) (binary g)\<rparr>)"

text \<open>
  The block under \<^verbatim>\<open>try\<close>: an exception of the normalisation or of the extraction of the
  productions leaves the block before the first insertion.
\<close>

definition try_block :: "('t, 'p) library \<Rightarrow> 't \<Rightarrow> grammar \<Rightarrow> exn + grammar" where
  "try_block lib sent g =
     (case chomsky_normal_form lib sent of
        Inl e \<Rightarrow> Inl e
      | Inr sent' \<Rightarrow>
          (case productions lib sent' of
             Inl e \<Rightarrow> Inl e
           | Inr ps \<Rightarrow> Inr (fold (add_production lib) ps g)))"

text \<open>One sentence: the test of the root label, then the block with its handler.\<close>

definition process_sent :: "('t, 'p) library \<Rightarrow> 't \<Rightarrow> grammar \<Rightarrow> exn + grammar" where
  "process_sent lib sent g =
     (if label lib sent \<noteq> ''CODE''
      then (case try_block lib sent g of
              Inl e \<Rightarrow> Inr g
            | Inr g' \<Rightarrow> Inr g')
      else Inr g)"

text \<open>A \<^verbatim>\<open>for\<close> loop whose body may raise: the first exception leaves the loop.\<close>

fun for_each :: "('a \<Rightarrow> 's \<Rightarrow> exn + 's) \<Rightarrow> 'a list \<Rightarrow> 's \<Rightarrow> exn + 's" where
  "for_each body [] s = Inr s"
| "for_each body (x # xs) s =
     (case body x s of Inl e \<Rightarrow> Inl e | Inr s' \<Rightarrow> for_each body xs s')"

text \<open>The two nested loops, from given sets.\<close>

definition accumulate :: "('t, 'p) library \<Rightarrow> 't list list \<Rightarrow> grammar \<Rightarrow> exn + grammar" where
  "accumulate lib corpus g = for_each (\<lambda>sents. for_each (process_sent lib) sents) corpus g"

text \<open>The run of the script: both sets start empty.\<close>

definition extract_productions :: "('t, 'p) library \<Rightarrow> 't list list \<Rightarrow> exn + grammar" where
  "extract_productions lib corpus = accumulate lib corpus \<lparr>terminal = {}, binary = {}\<rparr>"

text \<open>
  The productions a sentence hands to the loop body: none when the sentence is skipped or
  the block raises.
\<close>

definition emitted_sent :: "('t, 'p) library \<Rightarrow> 't \<Rightarrow> 'p list" where
  "emitted_sent lib sent =
     (if label lib sent \<noteq> ''CODE''
      then (case chomsky_normal_form lib sent of
              Inl e \<Rightarrow> []
            | Inr sent' \<Rightarrow> (case productions lib sent' of Inl e \<Rightarrow> [] | Inr ps \<Rightarrow> ps))
      else [])"

definition emitted :: "('t, 'p) library \<Rightarrow> 't list list \<Rightarrow> 'p list" where
  "emitted lib corpus = concat (map (emitted_sent lib) (concat corpus))"

text \<open>
  What one sentence adds: the sets after processing it from empty sets.
\<close>

definition contribution :: "('t, 'p) library \<Rightarrow> 't \<Rightarrow> grammar" where
  "contribution lib sent =
     (case process_sent lib sent \<lparr>terminal = {}, binary = {}\<rparr> of
        Inl e \<Rightarrow> \<lparr>terminal = {}, binary = {}\<rparr>
      | Inr g \<Rightarrow> g)"

subsection \<open>The library, from the specification\<close>

text \<open>
  Modelled from the spec: the parse tree of the library (its class is not in the
  repository). A tree is a labelled, ordered, rooted tree; each child of a node is another
  tree or a terminal token. A sentence of the corpus is a tree, never a bare token.
\<close>

datatype tree = Tree (tree_label: string) (tree_children: "child list")
  and child = Sub tree | Tok string

text \<open>
  Modelled from the spec: the production of the library (its class is not in the
  repository), a rule \<^verbatim>\<open>LHS -> RHS_1 ... RHS_k\<close> whose right-hand symbols are non-terminal
  labels or terminal tokens.
\<close>

datatype symbol = Nonterminal string | Terminal string

datatype production = Production (lhs: string) (rhs: "symbol list")

text \<open>
  Modelled from the spec: the productions of a tree (the library method is not in the
  repository), one for each node from the node and its immediate children.
\<close>

fun child_symbol :: "child \<Rightarrow> symbol" where
  "child_symbol (Sub t) = Nonterminal (tree_label t)"
| "child_symbol (Tok w) = Terminal w"

fun tree_productions :: "tree \<Rightarrow> production list"
  and child_productions :: "child \<Rightarrow> production list" where
  "tree_productions (Tree X cs) =
     Production X (map child_symbol cs) # concat (map child_productions cs)"
| "child_productions (Sub t) = tree_productions t"
| "child_productions (Tok w) = []"

text \<open>
  Modelled from the spec: the test for a lexical production (the library method is not
  in the repository). A production is lexical if its single right-hand-side element is a
  terminal token.
\<close>

definition lexical :: "production \<Rightarrow> bool" where
  "lexical p = (case rhs p of [Terminal w] \<Rightarrow> True | _ \<Rightarrow> False)"

text \<open>
  Modelled from the spec: the synthetic label of an introduced node (the library routine
  is not in the repository), \<^verbatim>\<open>X|<Y-Z>\<close> for the node \<^verbatim>\<open>X\<close> and the children \<^verbatim>\<open>Y\<close>, \<^verbatim>\<open>Z\<close> it
  covers.
\<close>

fun join :: "string \<Rightarrow> string list \<Rightarrow> string" where
  "join sep [] = []"
| "join sep [x] = x"
| "join sep (x # y # ys) = x @ sep @ join sep (y # ys)"

definition synthetic :: "string \<Rightarrow> tree list \<Rightarrow> string" where
  "synthetic X ts = X @ ''|<'' @ join ''-'' (map tree_label ts) @ ''>''"

text \<open>
  Modelled from the spec: the factoring of a node with more than two children into a
  cascade of binary nodes with synthetic labels (the library routine is not in the
  repository). Of the two directions the specification allows, the cascade branches to
  the right. A node with one or two children is left as it is.
\<close>

fun cascade :: "string \<Rightarrow> tree list \<Rightarrow> tree" where
  "cascade X (a # b # c # ts) =
     Tree (synthetic X (a # b # c # ts)) [Sub a, Sub (cascade X (b # c # ts))]"
| "cascade X ts = Tree (synthetic X ts) (map Sub ts)"

definition binarize :: "string \<Rightarrow> tree list \<Rightarrow> tree" where
  "binarize X ts =
     (case ts of
        a # b # c # ts' \<Rightarrow> Tree X [Sub a, Sub (cascade X (b # c # ts'))]
      | _ \<Rightarrow> Tree X (map Sub ts))"

text \<open>
  Modelled from the spec: part of the conversion below. The children of a node when all
  of them are trees; none when a token is among them.
\<close>

fun subtrees :: "child list \<Rightarrow> tree list option" where
  "subtrees [] = Some []"
| "subtrees (Sub t # cs) = map_option ((#) t) (subtrees cs)"
| "subtrees (Tok w # cs) = None"

text \<open>
  Modelled from the spec: part of the conversion below. The results of normalising the
  children in order: the first exception, or all the normalised children.
\<close>

fun sequence :: "('e + 'a) list \<Rightarrow> 'e + 'a list" where
  "sequence [] = Inr []"
| "sequence (Inl e # rs) = Inl e"
| "sequence (Inr x # rs) =
     (case sequence rs of Inl e \<Rightarrow> Inl e | Inr xs \<Rightarrow> Inr (x # xs))"

lemma subtrees_member: "subtrees cs = Some ts \<Longrightarrow> t \<in> set ts \<Longrightarrow> Sub t \<in> set cs"
  by (induction cs arbitrary: ts rule: subtrees.induct) auto

lemma subtree_smaller:
  assumes "subtrees cs = Some ts" and "t \<in> set ts"
  shows "size t < Suc (size_list size cs)"
proof -
  have "Sub t \<in> set cs" using assms by (rule subtrees_member)
  then have "size (Sub t) \<le> size_list size cs" by (rule size_list_estimation') simp
  then show ?thesis by simp
qed

text \<open>
  Modelled from the spec: the conversion to Chomsky normal form (the library routine is
  not in the repository). Every node with more than two children is factored; unary
  rules are left alone, as the specification's first example expects (it keeps
  \<^verbatim>\<open>VBZ -> sat\<close> under \<^verbatim>\<open>VP\<close>). The conversion fails when the tree cannot be reduced to the
  binary or lexical form: at a node with no children, and at a node where a token has a
  sibling.
\<close>

function cnf :: "tree \<Rightarrow> exn + tree" where
  "cnf (Tree X cs) =
     (case subtrees cs of
        Some ts \<Rightarrow>
          (if ts = [] then Inl (Exception ''NormalizationFailure'')
           else (case sequence (map cnf ts) of
                   Inl e \<Rightarrow> Inl e
                 | Inr ts' \<Rightarrow> Inr (binarize X ts')))
      | None \<Rightarrow>
          (case cs of
             [Tok w] \<Rightarrow> Inr (Tree X cs)
           | _ \<Rightarrow> Inl (Exception ''NormalizationFailure'')))"
  by pat_completeness auto
termination
  by (relation "measure size") (auto intro: subtree_smaller)

text \<open>
  Modelled from the spec: a string of a production (the library method is not in the
  repository), in the surface syntax of the specification's examples, as in
  \<^verbatim>\<open>S -> NP VP\<close> and \<^verbatim>\<open>DT -> the\<close>. The specification leaves the surface syntax open, so
  the library below takes the rendering as a parameter, and this one serves where a
  concrete one is needed.
\<close>

fun symbol_name :: "symbol \<Rightarrow> string" where
  "symbol_name (Nonterminal X) = X"
| "symbol_name (Terminal w) = w"

definition arrow_repr :: "production \<Rightarrow> string" where
  "arrow_repr p = lhs p @ '' -> '' @ join '' '' (map symbol_name (rhs p))"

text \<open>
  Modelled from the spec: the library as the specification describes it, for a given
  rendering of productions. The extraction of the productions of a tree does not raise.
\<close>

definition treebank :: "(production \<Rightarrow> string) \<Rightarrow> (tree, production) library" where
  "treebank render =
     \<lparr>label = tree_label, chomsky_normal_form = cnf,
      productions = (\<lambda>t. Inr (tree_productions t)),
      is_lexical = lexical, unicode_repr = render\<rparr>"

subsection \<open>Notions for the statements about the library\<close>

text \<open>A right-hand symbol that is a non-terminal label.\<close>

fun is_nonterminal :: "symbol \<Rightarrow> bool" where
  "is_nonterminal (Nonterminal A) = True"
| "is_nonterminal (Terminal w) = False"

text \<open>The labels of the nodes of a tree, the root first.\<close>

fun labels :: "tree \<Rightarrow> string list"
  and child_labels :: "child \<Rightarrow> string list" where
  "labels (Tree X cs) = X # concat (map child_labels cs)"
| "child_labels (Sub t) = labels t"
| "child_labels (Tok w) = []"

text \<open>
  The productions of the nodes a cascade consists of, without those of the subtrees
  hanging from it, and the same for a factored node: they are the productions the
  factored node itself yields.
\<close>

fun cascade_productions :: "string \<Rightarrow> tree list \<Rightarrow> production list" where
  "cascade_productions X (a # b # c # ts) =
     Production (synthetic X (a # b # c # ts))
       [Nonterminal (tree_label a), Nonterminal (synthetic X (b # c # ts))] #
     cascade_productions X (b # c # ts)"
| "cascade_productions X ts =
     [Production (synthetic X ts) (map (\<lambda>t. Nonterminal (tree_label t)) ts)]"

definition node_productions :: "string \<Rightarrow> tree list \<Rightarrow> production list" where
  "node_productions X ts =
     (case ts of
        a # b # c # ts' \<Rightarrow>
          Production X [Nonterminal (tree_label a), Nonterminal (synthetic X (b # c # ts'))] #
          cascade_productions X (b # c # ts')
      | _ \<Rightarrow> [Production X (map (\<lambda>t. Nonterminal (tree_label t)) ts)])"

text \<open>The synthetic labels the factoring of a node introduces.\<close>

fun introduced :: "string \<Rightarrow> tree list \<Rightarrow> string list" where
  "introduced X (a # b # c # ts) = synthetic X (b # c # ts) # introduced X (b # c # ts)"
| "introduced X ts = []"

text \<open>
  The shape the specification requires of every production after the normalisation:
  lexical, or one or two non-terminal labels on the right.
\<close>

definition normal_form :: "production \<Rightarrow> bool" where
  "normal_form p =
     (lexical p \<or>
      ((length (rhs p) = 1 \<or> length (rhs p) = 2) \<and> list_all is_nonterminal (rhs p)))"

subsection \<open>Sample sentences\<close>

definition leaf :: "string \<Rightarrow> string \<Rightarrow> child" where
  "leaf X w = Sub (Tree X [Tok w])"

text \<open>\<^verbatim>\<open>(S (NP (DT the) (NN cat)) (VP (VBZ sat)))\<close>\<close>

definition cat_sat :: tree where
  "cat_sat =
     Tree ''S'' [Sub (Tree ''NP'' [leaf ''DT'' ''the'', leaf ''NN'' ''cat'']),
                 Sub (Tree ''VP'' [leaf ''VBZ'' ''sat''])]"

text \<open>\<^verbatim>\<open>(S (NP (DT the) (JJ big) (NN cat)) (VP (VBZ sat)))\<close>\<close>

definition big_cat :: tree where
  "big_cat =
     Tree ''S'' [Sub (Tree ''NP'' [leaf ''DT'' ''the'', leaf ''JJ'' ''big'', leaf ''NN'' ''cat'']),
                 Sub (Tree ''VP'' [leaf ''VBZ'' ''sat''])]"

text \<open>\<^verbatim>\<open>(CODE (SYM <p>))\<close>, a block of markup.\<close>

definition code_block :: tree where
  "code_block = Tree ''CODE'' [leaf ''SYM'' ''<p>'']"

text \<open>\<^verbatim>\<open>(S (NP (DT the) (NN cat)) (VP))\<close>, with a node that has no children.\<close>

definition no_children :: tree where
  "no_children =
     Tree ''S'' [Sub (Tree ''NP'' [leaf ''DT'' ''the'', leaf ''NN'' ''cat'']),
                 Sub (Tree ''VP'' [])]"



text \<open>\<^verbatim>\<open>(S (CODE (SYM <p>)) (VP (VBZ sat)))\<close>, with the label \<^verbatim>\<open>CODE\<close> below the root.\<close>

definition inner_code :: tree where
  "inner_code =
     Tree ''S'' [Sub (Tree ''CODE'' [leaf ''SYM'' ''<p>'']),
                 Sub (Tree ''VP'' [leaf ''VBZ'' ''sat''])]"



section \<open>Properties of the script\<close>

subsection \<open>What a run adds\<close>

lemma process_sent_emitted:
  "process_sent lib sent g = Inr (fold (add_production lib) (emitted_sent lib sent) g)"
  by (simp add: process_sent_def try_block_def emitted_sent_def split: sum.splits)

lemma for_each_process_sent:
  "for_each (process_sent lib) sents g =
     Inr (fold (add_production lib) (concat (map (emitted_sent lib) sents)) g)"
  by (induction sents arbitrary: g) (simp_all add: process_sent_emitted)

lemma accumulate_emitted:
  "accumulate lib corpus g = Inr (fold (add_production lib) (emitted lib corpus) g)"
  unfolding accumulate_def emitted_def
  by (induction corpus arbitrary: g) (simp_all add: for_each_process_sent)

lemma terminal_fold:
  "terminal (fold (add_production lib) ps g) =
     terminal g \<union> unicode_repr lib ` {p \<in> set ps. is_lexical lib p}"
  by (induction ps arbitrary: g) (auto simp: add_production_def)

lemma binary_fold:
  "binary (fold (add_production lib) ps g) =
     binary g \<union> unicode_repr lib ` {p \<in> set ps. \<not> is_lexical lib p}"
  by (induction ps arbitrary: g) (auto simp: add_production_def)

lemma grammar_eqI:
  "terminal g = terminal g' \<Longrightarrow> binary g = binary g' \<Longrightarrow> g = (g'::grammar)"
  by simp

lemma emitted_append: "emitted lib (c1 @ c2) = emitted lib c1 @ emitted lib c2"
  by (simp add: emitted_def)

lemma fold_add_production_again:
  "fold (add_production lib) ps (fold (add_production lib) ps g) = fold (add_production lib) ps g"
  by (rule grammar_eqI) (auto simp: terminal_fold binary_fold)

lemma extract_emitted:
  "extract_productions lib corpus =
     Inr \<lparr>terminal = unicode_repr lib ` {p \<in> set (emitted lib corpus). is_lexical lib p},
          binary = unicode_repr lib ` {p \<in> set (emitted lib corpus). \<not> is_lexical lib p}\<rparr>"
proof -
  let ?g = "fold (add_production lib) (emitted lib corpus) \<lparr>terminal = {}, binary = {}\<rparr>"
  have "?g = \<lparr>terminal = unicode_repr lib ` {p \<in> set (emitted lib corpus). is_lexical lib p},
          binary = unicode_repr lib ` {p \<in> set (emitted lib corpus). \<not> is_lexical lib p}\<rparr>"
    by (rule grammar_eqI) (simp_all add: terminal_fold binary_fold)
  then show ?thesis
    by (simp add: extract_productions_def accumulate_emitted)
qed

lemma set_emitted: "set (emitted lib corpus) = (\<Union>s \<in> set (concat corpus). set (emitted_sent lib s))"
  by (simp add: emitted_def)

lemma terminal_contribution:
  "terminal (contribution lib s) = unicode_repr lib ` {p \<in> set (emitted_sent lib s). is_lexical lib p}"
  by (simp add: contribution_def process_sent_emitted terminal_fold)

lemma binary_contribution:
  "binary (contribution lib s) = unicode_repr lib ` {p \<in> set (emitted_sent lib s). \<not> is_lexical lib p}"
  by (simp add: contribution_def process_sent_emitted binary_fold)

lemma extract_single: "extract_productions lib [[s]] = Inr (contribution lib s)"
  by (simp add: extract_productions_def accumulate_def contribution_def process_sent_emitted)

lemma process_sent_union:
  "process_sent lib sent g =
     Inr \<lparr>terminal = terminal g \<union> terminal (contribution lib sent),
          binary = binary g \<union> binary (contribution lib sent)\<rparr>"
proof -
  have "fold (add_production lib) (emitted_sent lib sent) g =
        \<lparr>terminal = terminal g \<union> terminal (contribution lib sent),
         binary = binary g \<union> binary (contribution lib sent)\<rparr>"
    by (rule grammar_eqI)
      (simp_all add: terminal_fold binary_fold terminal_contribution binary_contribution)
  then show ?thesis by (simp add: process_sent_emitted)
qed

lemma extract_union:
  "extract_productions lib corpus =
     Inr \<lparr>terminal = (\<Union>s \<in> set (concat corpus). terminal (contribution lib s)),
          binary = (\<Union>s \<in> set (concat corpus). binary (contribution lib s))\<rparr>"
proof -
  have "unicode_repr lib ` {p \<in> set (emitted lib corpus). is_lexical lib p} =
        (\<Union>s \<in> set (concat corpus). terminal (contribution lib s))"
    unfolding terminal_contribution set_emitted by blast
  moreover have "unicode_repr lib ` {p \<in> set (emitted lib corpus). \<not> is_lexical lib p} =
        (\<Union>s \<in> set (concat corpus). binary (contribution lib s))"
    unfolding binary_contribution set_emitted by blast
  ultimately show ?thesis by (simp add: extract_emitted)
qed

subsection \<open>Sentences with the root label CODE\<close>

text \<open>
  C4. A sentence whose root label is \<^verbatim>\<open>CODE\<close> is skipped: processing it leaves both sets as
  they are, and a corpus with such a sentence anywhere in it gives the result of the
  corpus without it.
\<close>

theorem code_sentence_skipped:
  assumes "label lib sent = ''CODE''"
  shows "process_sent lib sent g = Inr g \<and>
         extract_productions lib (files1 @ [pre @ sent # post] @ files2) =
         extract_productions lib (files1 @ [pre @ post] @ files2)"
proof -
  have none: "emitted_sent lib sent = []"
    using assms by (simp add: emitted_sent_def)
  have "process_sent lib sent g = Inr g"
    by (simp add: process_sent_emitted none)
  moreover have "emitted lib (files1 @ [pre @ sent # post] @ files2) =
                 emitted lib (files1 @ [pre @ post] @ files2)"
    by (simp add: emitted_def none)
  ultimately show ?thesis
    by (simp add: extract_productions_def accumulate_emitted)
qed

theorem code_sentence_skipped_witness:
  "label (treebank arrow_repr) code_block = ''CODE'' \<and>
   process_sent (treebank arrow_repr) code_block \<lparr>terminal = {''DT -> the''}, binary = {}\<rparr> =
     Inr \<lparr>terminal = {''DT -> the''}, binary = {}\<rparr> \<and>
   extract_productions (treebank arrow_repr) ([] @ [[cat_sat] @ code_block # [big_cat]] @ []) =
   extract_productions (treebank arrow_repr) ([] @ [[cat_sat] @ [big_cat]] @ [])"
  using code_sentence_skipped [of "treebank arrow_repr" code_block
      "\<lparr>terminal = {''DT -> the''}, binary = {}\<rparr>" "[]" "[cat_sat]" "[big_cat]" "[]"]
  by (simp add: treebank_def code_block_def)

subsection \<open>Sentences that raise\<close>

text \<open>
  C1. A sentence whose normalisation raises, or whose normalised tree raises when its
  productions are extracted, leaves the block before anything is inserted: processing it
  leaves both sets as they are, and a corpus with such a sentence anywhere in it gives
  exactly the result of the corpus without it.
\<close>

theorem failed_sentence_adds_nothing:
  assumes "chomsky_normal_form lib bad = Inl e \<or>
           (chomsky_normal_form lib bad = Inr bad' \<and> productions lib bad' = Inl e)"
  shows "try_block lib bad g = Inl e \<and>
         process_sent lib bad g = Inr g \<and>
         extract_productions lib (files1 @ [pre @ bad # post] @ files2) =
         extract_productions lib (files1 @ [pre @ post] @ files2)"
proof -
  have raised: "try_block lib bad g = Inl e"
    using assms by (auto simp: try_block_def)
  have none: "emitted_sent lib bad = []"
    using assms by (auto simp: emitted_sent_def)
  have same: "process_sent lib bad g = Inr g"
    by (simp add: process_sent_emitted none)
  have "emitted lib (files1 @ [pre @ bad # post] @ files2) =
        emitted lib (files1 @ [pre @ post] @ files2)"
    by (simp add: emitted_def none)
  then have "extract_productions lib (files1 @ [pre @ bad # post] @ files2) =
             extract_productions lib (files1 @ [pre @ post] @ files2)"
    by (simp add: extract_productions_def accumulate_emitted)
  with raised same show ?thesis by simp
qed

theorem failed_sentence_adds_nothing_witness:
  "(chomsky_normal_form (treebank arrow_repr) no_children = Inl (Exception ''NormalizationFailure'') \<or>
    (chomsky_normal_form (treebank arrow_repr) no_children = Inr no_children \<and>
     productions (treebank arrow_repr) no_children = Inl (Exception ''NormalizationFailure''))) \<and>
   try_block (treebank arrow_repr) no_children \<lparr>terminal = {''DT -> the''}, binary = {}\<rparr> =
     Inl (Exception ''NormalizationFailure'') \<and>
   process_sent (treebank arrow_repr) no_children \<lparr>terminal = {''DT -> the''}, binary = {}\<rparr> =
     Inr \<lparr>terminal = {''DT -> the''}, binary = {}\<rparr> \<and>
   extract_productions (treebank arrow_repr) ([[cat_sat]] @ [[big_cat] @ no_children # [cat_sat]] @ []) =
   extract_productions (treebank arrow_repr) ([[cat_sat]] @ [[big_cat] @ [cat_sat]] @ [])"
proof -
  have raises: "chomsky_normal_form (treebank arrow_repr) no_children =
                  Inl (Exception ''NormalizationFailure'')"
    by (simp add: treebank_def no_children_def leaf_def)
  show ?thesis
    using raises
      failed_sentence_adds_nothing [of "treebank arrow_repr" no_children
        "Exception ''NormalizationFailure''" no_children
        "\<lparr>terminal = {''DT -> the''}, binary = {}\<rparr>" "[[cat_sat]]" "[big_cat]" "[cat_sat]" "[]"]
    by simp
qed

text \<open>
  C5. No exception of a sentence ends the run: the run of every corpus returns its two
  sets, and a sentence whose block raises is dropped without a trace, the loop going on
  with the sentences after it.
\<close>

theorem failures_are_not_fatal:
  "(\<exists>g'. extract_productions lib corpus = Inr g') \<and>
   (try_block lib bad g = Inl e \<longrightarrow>
      process_sent lib bad g = Inr g \<and>
      for_each (process_sent lib) (bad # rest) g = for_each (process_sent lib) rest g)"
proof -
  have "\<exists>g'. extract_productions lib corpus = Inr g'"
    by (simp add: extract_productions_def accumulate_emitted)
  moreover have "process_sent lib bad g = Inr g" if "try_block lib bad g = Inl e"
    using that by (simp add: process_sent_def)
  ultimately show ?thesis by simp
qed

theorem failures_are_not_fatal_witness:
  "(\<exists>g'. extract_productions (treebank arrow_repr) [[no_children, cat_sat], [no_children]] = Inr g') \<and>
   try_block (treebank arrow_repr) no_children \<lparr>terminal = {}, binary = {}\<rparr> =
     Inl (Exception ''NormalizationFailure'') \<and>
   process_sent (treebank arrow_repr) no_children \<lparr>terminal = {}, binary = {}\<rparr> =
     Inr \<lparr>terminal = {}, binary = {}\<rparr> \<and>
   for_each (process_sent (treebank arrow_repr)) (no_children # [cat_sat]) \<lparr>terminal = {}, binary = {}\<rparr> =
   for_each (process_sent (treebank arrow_repr)) [cat_sat] \<lparr>terminal = {}, binary = {}\<rparr>"
proof -
  have raises: "try_block (treebank arrow_repr) no_children \<lparr>terminal = {}, binary = {}\<rparr> =
                  Inl (Exception ''NormalizationFailure'')"
    by (simp add: try_block_def treebank_def no_children_def leaf_def)
  show ?thesis
    using raises
      failures_are_not_fatal [of "treebank arrow_repr" "[[no_children, cat_sat], [no_children]]"
        no_children "\<lparr>terminal = {}, binary = {}\<rparr>" "Exception ''NormalizationFailure''" "[cat_sat]"]
    by simp
qed


subsection \<open>The two sets as sets\<close>

text \<open>
  C7. Inserting a production a second time changes nothing; the result depends only on
  which productions occur in the corpus, not on how often; processing the corpus twice
  in one run gives the result of processing it once, and a second pass over the corpus
  from the sets of the first pass leaves them as they are.
\<close>

theorem duplicates_change_nothing:
  "add_production lib p (add_production lib p g) = add_production lib p g \<and>
   (set (emitted lib corpus) = set (emitted lib corpus') \<longrightarrow>
      extract_productions lib corpus = extract_productions lib corpus') \<and>
   extract_productions lib (corpus @ corpus) = extract_productions lib corpus \<and>
   (accumulate lib corpus g0 = Inr g1 \<longrightarrow> accumulate lib corpus g1 = Inr g1)"
proof -
  have "add_production lib p (add_production lib p g) = add_production lib p g"
    by (simp add: add_production_def)
  moreover have "extract_productions lib corpus = extract_productions lib corpus'"
    if "set (emitted lib corpus) = set (emitted lib corpus')"
    using that by (simp add: extract_emitted)
  moreover have "extract_productions lib (corpus @ corpus) = extract_productions lib corpus"
    by (simp add: extract_productions_def accumulate_emitted emitted_append
        fold_add_production_again)
  moreover have "accumulate lib corpus g1 = Inr g1" if "accumulate lib corpus g0 = Inr g1"
  proof -
    from that have "g1 = fold (add_production lib) (emitted lib corpus) g0"
      by (simp add: accumulate_emitted)
    then show ?thesis
      by (simp add: accumulate_emitted fold_add_production_again)
  qed
  ultimately show ?thesis by blast
qed



theorem duplicates_change_nothing_witness:
  "add_production (treebank arrow_repr) (Production ''DT'' [Terminal ''the''])
     (add_production (treebank arrow_repr) (Production ''DT'' [Terminal ''the''])
        \<lparr>terminal = {}, binary = {}\<rparr>) = \<lparr>terminal = {''DT -> the''}, binary = {}\<rparr> \<and>
   set (emitted (treebank arrow_repr) [[cat_sat, cat_sat], [cat_sat]]) =
   set (emitted (treebank arrow_repr) [[cat_sat]]) \<and>
   extract_productions (treebank arrow_repr) [[cat_sat, cat_sat], [cat_sat]] =
   extract_productions (treebank arrow_repr) [[cat_sat]] \<and>
   extract_productions (treebank arrow_repr)
     ([[cat_sat, cat_sat], [cat_sat]] @ [[cat_sat, cat_sat], [cat_sat]]) =
   extract_productions (treebank arrow_repr) [[cat_sat, cat_sat], [cat_sat]] \<and>
   accumulate (treebank arrow_repr) [[cat_sat, cat_sat], [cat_sat]] \<lparr>terminal = {}, binary = {}\<rparr> =
     Inr \<lparr>terminal = {''DT -> the'', ''NN -> cat'', ''VBZ -> sat''},
          binary = {''S -> NP VP'', ''NP -> DT NN'', ''VP -> VBZ''}\<rparr> \<and>
   accumulate (treebank arrow_repr) [[cat_sat, cat_sat], [cat_sat]]
     \<lparr>terminal = {''DT -> the'', ''NN -> cat'', ''VBZ -> sat''},
      binary = {''S -> NP VP'', ''NP -> DT NN'', ''VP -> VBZ''}\<rparr> =
     Inr \<lparr>terminal = {''DT -> the'', ''NN -> cat'', ''VBZ -> sat''},
          binary = {''S -> NP VP'', ''NP -> DT NN'', ''VP -> VBZ''}\<rparr>"
proof -
  let ?lib = "treebank arrow_repr"
  let ?g = "\<lparr>terminal = {''DT -> the'', ''NN -> cat'', ''VBZ -> sat''},
          binary = {''S -> NP VP'', ''NP -> DT NN'', ''VP -> VBZ''}\<rparr>"
  have same: "set (emitted ?lib [[cat_sat, cat_sat], [cat_sat]]) = set (emitted ?lib [[cat_sat]])"
    by (simp add: emitted_def)
  have first: "accumulate ?lib [[cat_sat, cat_sat], [cat_sat]] \<lparr>terminal = {}, binary = {}\<rparr> = Inr ?g"
    by (simp add: accumulate_def process_sent_def try_block_def treebank_def cat_sat_def
        leaf_def binarize_def add_production_def lexical_def arrow_repr_def insert_commute)
  have once: "add_production ?lib (Production ''DT'' [Terminal ''the''])
        \<lparr>terminal = {}, binary = {}\<rparr> = \<lparr>terminal = {''DT -> the''}, binary = {}\<rparr>"
    by (simp add: add_production_def treebank_def lexical_def arrow_repr_def)
  show ?thesis
    using same first once
      duplicates_change_nothing [of ?lib "Production ''DT'' [Terminal ''the'']"
        "\<lparr>terminal = {}, binary = {}\<rparr>" "[[cat_sat, cat_sat], [cat_sat]]" "[[cat_sat]]"
        "\<lparr>terminal = {}, binary = {}\<rparr>" ?g]
    by simp
qed

text \<open>
  C8. What a sentence adds does not depend on the sets it is added to; the sets of a run
  are the unions of what each sentence of the corpus adds on its own; and two corpora
  with the same sentences in any order and any division into files give the same sets.
\<close>

theorem sentences_contribute_independently:
  "process_sent lib sent g =
     Inr \<lparr>terminal = terminal g \<union> terminal (contribution lib sent),
          binary = binary g \<union> binary (contribution lib sent)\<rparr> \<and>
   extract_productions lib [[sent]] = Inr (contribution lib sent) \<and>
   extract_productions lib corpus =
     Inr \<lparr>terminal = (\<Union>s \<in> set (concat corpus). terminal (contribution lib s)),
          binary = (\<Union>s \<in> set (concat corpus). binary (contribution lib s))\<rparr> \<and>
   (mset (concat corpus) = mset (concat corpus') \<longrightarrow>
      extract_productions lib corpus = extract_productions lib corpus')"
proof (intro conjI impI)
  show "process_sent lib sent g =
     Inr \<lparr>terminal = terminal g \<union> terminal (contribution lib sent),
          binary = binary g \<union> binary (contribution lib sent)\<rparr>"
    by (rule process_sent_union)
  show "extract_productions lib [[sent]] = Inr (contribution lib sent)"
    by (rule extract_single)
  show "extract_productions lib corpus =
     Inr \<lparr>terminal = (\<Union>s \<in> set (concat corpus). terminal (contribution lib s)),
          binary = (\<Union>s \<in> set (concat corpus). binary (contribution lib s))\<rparr>"
    by (rule extract_union)
next
  assume "mset (concat corpus) = mset (concat corpus')"
  then have "set (concat corpus) = set (concat corpus')"
    by (rule mset_eq_setD)
  then show "extract_productions lib corpus = extract_productions lib corpus'"
    by (simp only: extract_union)
qed


theorem sentences_contribute_independently_witness:
  "mset (concat [[cat_sat, code_block], [big_cat]]) = mset (concat [[big_cat, cat_sat], [code_block]]) \<and>
   extract_productions (treebank arrow_repr) [[cat_sat, code_block], [big_cat]] =
   extract_productions (treebank arrow_repr) [[big_cat, cat_sat], [code_block]] \<and>
   extract_productions (treebank arrow_repr) [[cat_sat, code_block], [big_cat]] =
     Inr \<lparr>terminal = terminal (contribution (treebank arrow_repr) cat_sat) \<union>
                     terminal (contribution (treebank arrow_repr) code_block) \<union>
                     terminal (contribution (treebank arrow_repr) big_cat),
          binary = binary (contribution (treebank arrow_repr) cat_sat) \<union>
                   binary (contribution (treebank arrow_repr) code_block) \<union>
                   binary (contribution (treebank arrow_repr) big_cat)\<rparr>"
proof -
  have perm: "mset (concat [[cat_sat, code_block], [big_cat]]) =
              mset (concat [[big_cat, cat_sat], [code_block]])"
    by simp
  note inst = sentences_contribute_independently [of "treebank arrow_repr" cat_sat
        "\<lparr>terminal = {}, binary = {}\<rparr>" "[[cat_sat, code_block], [big_cat]]"
        "[[big_cat, cat_sat], [code_block]]"]
  from inst perm have same: "extract_productions (treebank arrow_repr) [[cat_sat, code_block], [big_cat]] =
      extract_productions (treebank arrow_repr) [[big_cat, cat_sat], [code_block]]"
    by blast
  from inst have "extract_productions (treebank arrow_repr) [[cat_sat, code_block], [big_cat]] =
     Inr \<lparr>terminal = (\<Union>s \<in> set (concat [[cat_sat, code_block], [big_cat]]).
                        terminal (contribution (treebank arrow_repr) s)),
          binary = (\<Union>s \<in> set (concat [[cat_sat, code_block], [big_cat]]).
                      binary (contribution (treebank arrow_repr) s))\<rparr>"
    by blast
  then have union: "extract_productions (treebank arrow_repr) [[cat_sat, code_block], [big_cat]] =
     Inr \<lparr>terminal = terminal (contribution (treebank arrow_repr) cat_sat) \<union>
                     terminal (contribution (treebank arrow_repr) code_block) \<union>
                     terminal (contribution (treebank arrow_repr) big_cat),
          binary = binary (contribution (treebank arrow_repr) cat_sat) \<union>
                   binary (contribution (treebank arrow_repr) code_block) \<union>
                   binary (contribution (treebank arrow_repr) big_cat)\<rparr>"
    by (simp add: Un_assoc)
  from perm same union show ?thesis by (intro conjI)
qed

subsection \<open>The partition of the productions\<close>







section \<open>Properties that rest on the library\<close>

subsection \<open>The normalised tree\<close>

lemma sequence_map:
  "sequence (map f ts) = Inr ts' \<Longrightarrow> list_all2 (\<lambda>t t'. f t = Inr t') ts ts'"
proof (induction ts arbitrary: ts')
  case Nil
  then show ?case by simp
next
  case (Cons t ts)
  then show ?case
    by (cases "f t") (auto split: sum.splits)
qed

lemma subtrees_map: "subtrees cs = Some ts \<Longrightarrow> cs = map Sub ts"
  by (induction cs arbitrary: ts rule: subtrees.induct) auto

lemma subtrees_map_Sub: "subtrees (map Sub ts) = Some ts"
  by (induction ts) auto

lemma productions_of_subs:
  "tree_productions (Tree X (map Sub ts)) =
     Production X (map (\<lambda>t. Nonterminal (tree_label t)) ts) # concat (map tree_productions ts)"
  by (simp add: comp_def)

lemma label_cascade: "tree_label (cascade X ts) = synthetic X ts"
  by (induction X ts rule: cascade.induct) simp_all

lemma label_binarize: "tree_label (binarize X ts) = X"
  by (simp add: binarize_def split: list.splits)

lemma mset_cascade:
  "mset (tree_productions (cascade X ts)) =
     mset (cascade_productions X ts) + mset (concat (map tree_productions ts))"
proof (induction X ts rule: cascade.induct)
  case (1 X a b c ts)
  then show ?case by (simp add: label_cascade)
qed (simp_all add: comp_def)

lemma mset_binarize:
  "mset (tree_productions (binarize X ts)) =
     mset (node_productions X ts) + mset (concat (map tree_productions ts))"
  by (simp add: binarize_def node_productions_def label_cascade mset_cascade comp_def
      split: list.splits)

lemma set_binarize:
  "set (tree_productions (binarize X ts)) =
     set (node_productions X ts) \<union> (\<Union>t \<in> set ts. set (tree_productions t))"
proof -
  have "set_mset (mset (tree_productions (binarize X ts))) =
        set_mset (mset (node_productions X ts) + mset (concat (map tree_productions ts)))"
    by (simp only: mset_binarize)
  then show ?thesis by simp
qed

lemma cascade_productions_binary:
  "2 \<le> length ts \<Longrightarrow>
   \<forall>p \<in> set (cascade_productions X ts). \<exists>A B. rhs p = [Nonterminal A, Nonterminal B]"
  by (induction X ts rule: cascade_productions.induct) auto


lemma node_productions_binary:
  "2 \<le> length ts \<Longrightarrow>
   \<forall>p \<in> set (node_productions X ts). \<exists>A B. rhs p = [Nonterminal A, Nonterminal B]"
  using cascade_productions_binary [of "tl ts" X]
  by (auto simp: node_productions_def split: list.splits)

lemma node_productions_unary:
  "length ts = 1 \<Longrightarrow>
   \<forall>p \<in> set (node_productions X ts). \<exists>A. rhs p = [Nonterminal A]"
  by (auto simp: node_productions_def split: list.splits)


lemma lhs_cascade_productions:
  "map lhs (cascade_productions X ts) = synthetic X ts # introduced X ts"
  by (induction X ts rule: cascade_productions.induct) auto

lemma lhs_node_productions:
  "map lhs (node_productions X ts) = X # introduced X ts"
  by (auto simp: node_productions_def lhs_cascade_productions split: list.splits)


lemma cnf_children:
  assumes "cnf (Tree X cs) = Inr t'" and "subtrees cs = Some ts"
  shows "\<exists>ts'. list_all2 (\<lambda>t t'. cnf t = Inr t') ts ts' \<and> t' = binarize X ts' \<and> ts \<noteq> []"
  using assms by (auto split: if_splits sum.splits dest: sequence_map)

lemma cnf_token:
  assumes "cnf (Tree X cs) = Inr t'" and "subtrees cs = None"
  shows "\<exists>w. cs = [Tok w] \<and> t' = Tree X [Tok w]"
  using assms by (auto split: list.splits child.splits)

lemma cnf_label: "cnf t = Inr t' \<Longrightarrow> tree_label t' = tree_label t"
  by (cases t) (auto simp: label_binarize split: option.splits if_splits sum.splits list.splits child.splits)


lemma normal_form_node_productions:
  assumes "ts \<noteq> []"
  shows "\<forall>p \<in> set (node_productions X ts). normal_form p"
proof (cases "length ts = 1")
  case True
  with node_productions_unary [of ts X] show ?thesis
    by (auto simp: normal_form_def)
next
  case False
  with assms have "2 \<le> length ts"
    by (cases ts) (auto simp: Suc_le_eq)
  with node_productions_binary [of ts X] show ?thesis
    by (auto simp: normal_form_def)
qed

lemma list_all2_right:
  "list_all2 R xs ys \<Longrightarrow> y \<in> set ys \<Longrightarrow> \<exists>x \<in> set xs. R x y"
  by (induction rule: list_all2_induct) auto

lemma list_all2_left:
  "list_all2 R xs ys \<Longrightarrow> x \<in> set xs \<Longrightarrow> \<exists>y \<in> set ys. R x y"
  by (induction rule: list_all2_induct) auto

lemma cnf_normal_form:
  "cnf t = Inr t' \<Longrightarrow> \<forall>p \<in> set (tree_productions t'). normal_form p"
proof (induction t arbitrary: t' rule: cnf.induct)
  case (1 X cs)
  show ?case
  proof (cases "subtrees cs")
    case None
    from cnf_token [OF "1.prems" None] obtain w where "t' = Tree X [Tok w]"
      by blast
    then show ?thesis
      by (simp add: normal_form_def lexical_def)
  next
    case (Some ts)
    from cnf_children [OF "1.prems" Some] obtain ts' where
      kids: "list_all2 (\<lambda>t t'. cnf t = Inr t') ts ts'" and t': "t' = binarize X ts'" and ne: "ts \<noteq> []"
      by blast
    from kids have "length ts = length ts'"
      by (rule list_all2_lengthD)
    with ne have ne': "ts' \<noteq> []"
      by auto
    have kid: "normal_form p" if u: "u \<in> set ts'" and p: "p \<in> set (tree_productions u)" for u p
    proof -
      from list_all2_right [OF kids u] obtain t where t: "t \<in> set ts" "cnf t = Inr u"
        by blast
      from "1.IH" [OF Some ne t] p show ?thesis by blast
    qed
    show ?thesis
    proof
      fix p
      assume "p \<in> set (tree_productions t')"
      then consider "p \<in> set (node_productions X ts')"
        | u where "u \<in> set ts'" "p \<in> set (tree_productions u)"
        unfolding t' set_binarize by blast
      then show "normal_form p"
      proof cases
        case 1
        with normal_form_node_productions [OF ne', of X] show ?thesis by blast
      next
        case 2
        then show ?thesis by (rule kid)
      qed
    qed
  qed
qed

lemma labels_of_subs: "labels (Tree X (map Sub ts)) = X # concat (map labels ts)"
  by (simp add: comp_def)

lemma cnf_keeps_labels:
  "cnf t = Inr t' \<Longrightarrow> set (labels t) \<subseteq> lhs ` set (tree_productions t')"
proof (induction t arbitrary: t' rule: cnf.induct)
  case (1 X cs)
  show ?case
  proof (cases "subtrees cs")
    case None
    from cnf_token [OF "1.prems" None] obtain w where "cs = [Tok w]" "t' = Tree X [Tok w]"
      by blast
    then show ?thesis by simp
  next
    case (Some ts)
    from cnf_children [OF "1.prems" Some] obtain ts' where
      kids: "list_all2 (\<lambda>t t'. cnf t = Inr t') ts ts'" and t': "t' = binarize X ts'" and ne: "ts \<noteq> []"
      by blast
    have cs: "cs = map Sub ts"
      using Some by (rule subtrees_map)
    have "X \<in> set (map lhs (node_productions X ts'))"
      by (simp add: lhs_node_productions)
    then have "X \<in> lhs ` set (node_productions X ts')"
      by simp
    then have root: "X \<in> lhs ` set (tree_productions t')"
      unfolding t' set_binarize by blast
    have kid: "l \<in> lhs ` set (tree_productions t')" if t: "t \<in> set ts" and l: "l \<in> set (labels t)" for t l
    proof -
      from list_all2_left [OF kids t] obtain u where u: "u \<in> set ts'" "cnf t = Inr u"
        by blast
      from "1.IH" [OF Some ne t u(2)] l
      have "l \<in> lhs ` set (tree_productions u)" by blast
      with u(1) show ?thesis
        unfolding t' set_binarize by blast
    qed
    show ?thesis
    proof
      fix l
      assume "l \<in> set (labels (Tree X cs))"
      then consider "l = X" | t where "t \<in> set ts" "l \<in> set (labels t)"
        unfolding cs labels_of_subs by auto
      then show "l \<in> lhs ` set (tree_productions t')"
      proof cases
        case 1
        with root show ?thesis by simp
      next
        case 2
        then show ?thesis by (rule kid)
      qed
    qed
  qed
qed








lemma lexical_single: "lexical p \<Longrightarrow> \<exists>w. rhs p = [Terminal w]"
  by (auto simp: lexical_def split: list.splits symbol.splits)

lemma normal_form_nonlexical:
  "normal_form p \<Longrightarrow> \<not> lexical p \<Longrightarrow>
   (length (rhs p) = 1 \<or> length (rhs p) = 2) \<and> list_all is_nonterminal (rhs p)"
  by (simp add: normal_form_def)

lemma emitted_sent_treebank:
  "emitted_sent (treebank render) t =
     (if tree_label t \<noteq> ''CODE''
      then (case cnf t of Inl e \<Rightarrow> [] | Inr t' \<Rightarrow> tree_productions t')
      else [])"
  by (simp add: emitted_sent_def treebank_def split: sum.splits)

lemma emitted_normal_form:
  assumes "p \<in> set (emitted (treebank render) corpus)"
  shows "normal_form p"
proof -
  from assms obtain t where "p \<in> set (emitted_sent (treebank render) t)"
    unfolding set_emitted by blast
  then have mem: "p \<in> set (case cnf t of Inl e \<Rightarrow> [] | Inr u \<Rightarrow> tree_productions u)"
    unfolding emitted_sent_treebank by (cases "tree_label t = ''CODE''") simp_all
  show ?thesis
  proof (cases "cnf t")
    case (Inl e)
    with mem show ?thesis by simp
  next
    case (Inr u)
    with mem have "p \<in> set (tree_productions u)" by simp
    with cnf_normal_form [OF Inr] show ?thesis by blast
  qed
qed

subsection \<open>The shape of the productions\<close>

text \<open>
  C2. For every corpus, every string in the binaries is the string of a production with
  one or two right-hand symbols, all of them non-terminal labels, and every string in
  the terminals is the string of a production whose right-hand side is one terminal
  token.
\<close>

theorem shape_of_productions:
  assumes "extract_productions (treebank render) corpus = Inr g"
  shows "(\<forall>s \<in> binary g. \<exists>p. s = render p \<and> (length (rhs p) = 1 \<or> length (rhs p) = 2) \<and>
                              list_all is_nonterminal (rhs p)) \<and>
         (\<forall>s \<in> terminal g. \<exists>p w. s = render p \<and> rhs p = [Terminal w])"
proof (intro conjI ballI)
  have g: "g = \<lparr>terminal = render ` {p \<in> set (emitted (treebank render) corpus). lexical p},
                binary = render ` {p \<in> set (emitted (treebank render) corpus). \<not> lexical p}\<rparr>"
    using assms by (simp add: extract_emitted treebank_def)
  {
    fix s
    assume "s \<in> binary g"
    then obtain p where p: "s = render p" "p \<in> set (emitted (treebank render) corpus)" "\<not> lexical p"
      by (auto simp: g)
    from p(2) have nf: "normal_form p" by (rule emitted_normal_form)
    from nf p(3) have "(length (rhs p) = 1 \<or> length (rhs p) = 2) \<and> list_all is_nonterminal (rhs p)"
      by (rule normal_form_nonlexical)
    with p(1) show "\<exists>p. s = render p \<and> (length (rhs p) = 1 \<or> length (rhs p) = 2) \<and>
                        list_all is_nonterminal (rhs p)"
      by blast
  }
  {
    fix s
    assume "s \<in> terminal g"
    then obtain p where p: "s = render p" "lexical p"
      by (auto simp: g)
    from p(2) obtain w where "rhs p = [Terminal w]"
      using lexical_single by blast
    with p(1) show "\<exists>p w. s = render p \<and> rhs p = [Terminal w]"
      by blast
  }
qed


lemma run_big_cat:
  "extract_productions (treebank arrow_repr) [[big_cat, no_children]] =
     Inr \<lparr>terminal = {''DT -> the'', ''JJ -> big'', ''NN -> cat'', ''VBZ -> sat''},
          binary = {''S -> NP VP'', ''NP -> DT NP|<JJ-NN>'', ''NP|<JJ-NN> -> JJ NN'',
                    ''VP -> VBZ''}\<rparr>"
  by (simp add: extract_productions_def accumulate_def process_sent_def try_block_def
        treebank_def big_cat_def no_children_def leaf_def binarize_def synthetic_def
        add_production_def lexical_def arrow_repr_def insert_commute)

theorem shape_of_productions_witness:
  "extract_productions (treebank arrow_repr) [[big_cat, no_children]] =
     Inr \<lparr>terminal = {''DT -> the'', ''JJ -> big'', ''NN -> cat'', ''VBZ -> sat''},
          binary = {''S -> NP VP'', ''NP -> DT NP|<JJ-NN>'', ''NP|<JJ-NN> -> JJ NN'',
                    ''VP -> VBZ''}\<rparr> \<and>
   (\<exists>p. ''NP -> DT NP|<JJ-NN>'' = arrow_repr p \<and> (length (rhs p) = 1 \<or> length (rhs p) = 2) \<and>
        list_all is_nonterminal (rhs p)) \<and>
   (\<exists>p w. ''JJ -> big'' = arrow_repr p \<and> rhs p = [Terminal w])"
proof -
  let ?g = "\<lparr>terminal = {''DT -> the'', ''JJ -> big'', ''NN -> cat'', ''VBZ -> sat''},
          binary = {''S -> NP VP'', ''NP -> DT NP|<JJ-NN>'', ''NP|<JJ-NN> -> JJ NN'',
                    ''VP -> VBZ''}\<rparr>"
  note shape = shape_of_productions [OF run_big_cat]
  have "''NP -> DT NP|<JJ-NN>'' \<in> binary ?g" by simp
  with shape have b: "\<exists>p. ''NP -> DT NP|<JJ-NN>'' = arrow_repr p \<and>
      (length (rhs p) = 1 \<or> length (rhs p) = 2) \<and> list_all is_nonterminal (rhs p)"
    by blast
  have "''JJ -> big'' \<in> terminal ?g" by simp
  with shape have t: "\<exists>p w. ''JJ -> big'' = arrow_repr p \<and> rhs p = [Terminal w]"
    by blast
  from run_big_cat b t show ?thesis by (intro conjI)
qed
subsection \<open>The first example\<close>

text \<open>
  C9. For the tree \<^verbatim>\<open>(S (NP (DT the) (NN cat)) (VP (VBZ sat)))\<close> the binaries are the strings
  of \<^verbatim>\<open>S -> NP VP\<close>, \<^verbatim>\<open>NP -> DT NN\<close> and \<^verbatim>\<open>VP -> VBZ\<close>, and the terminals are the strings of
  \<^verbatim>\<open>DT -> the\<close>, \<^verbatim>\<open>NN -> cat\<close> and \<^verbatim>\<open>VBZ -> sat\<close>, whatever the rendering of productions; in
  the surface syntax of the specification these are the strings the example names.
\<close>

theorem example_cat_sat:
  "extract_productions (treebank render) [[cat_sat]] =
     Inr \<lparr>terminal = {render (Production ''DT'' [Terminal ''the'']),
                      render (Production ''NN'' [Terminal ''cat'']),
                      render (Production ''VBZ'' [Terminal ''sat''])},
          binary = {render (Production ''S'' [Nonterminal ''NP'', Nonterminal ''VP'']),
                    render (Production ''NP'' [Nonterminal ''DT'', Nonterminal ''NN'']),
                    render (Production ''VP'' [Nonterminal ''VBZ''])}\<rparr> \<and>
   arrow_repr (Production ''S'' [Nonterminal ''NP'', Nonterminal ''VP'']) = ''S -> NP VP'' \<and>
   arrow_repr (Production ''NP'' [Nonterminal ''DT'', Nonterminal ''NN'']) = ''NP -> DT NN'' \<and>
   arrow_repr (Production ''DT'' [Terminal ''the'']) = ''DT -> the'' \<and>
   arrow_repr (Production ''NN'' [Terminal ''cat'']) = ''NN -> cat'' \<and>
   arrow_repr (Production ''VBZ'' [Terminal ''sat'']) = ''VBZ -> sat''"
  by (simp add: extract_productions_def accumulate_def process_sent_def try_block_def
        treebank_def cat_sat_def leaf_def binarize_def add_production_def
        lexical_def arrow_repr_def insert_commute)

subsection \<open>Nodes with more than two children\<close>




subsection \<open>The label CODE below the root\<close>

text \<open>
  C10. The test for \<^verbatim>\<open>CODE\<close> looks at the root label only. A sentence whose root label is
  not \<^verbatim>\<open>CODE\<close>, that has a node labelled \<^verbatim>\<open>CODE\<close> below the root and that is normalised
  without an exception is not skipped: the productions of its normalised tree are handed
  to the loop body, each has its string in the set of its class, and among them is a
  production whose left-hand side is \<^verbatim>\<open>CODE\<close>.
\<close>

theorem inner_code_node_is_processed:
  assumes run: "extract_productions (treebank render) corpus = Inr g"
    and sent: "t \<in> set (concat corpus)"
    and root: "tree_label t \<noteq> ''CODE''"
    and inner: "''CODE'' \<in> set (labels t)"
    and norm: "cnf t = Inr t'"
  shows "emitted_sent (treebank render) t = tree_productions t' \<and>
         (\<exists>p \<in> set (tree_productions t'). lhs p = ''CODE'' \<and>
            (render p \<in> terminal g \<or> render p \<in> binary g)) \<and>
         (\<forall>p \<in> set (tree_productions t').
            (lexical p \<longrightarrow> render p \<in> terminal g) \<and> (\<not> lexical p \<longrightarrow> render p \<in> binary g))"
proof -
  have em: "emitted_sent (treebank render) t = tree_productions t'"
    using root norm by (simp add: emitted_sent_treebank)
  have g: "g = \<lparr>terminal = render ` {p \<in> set (emitted (treebank render) corpus). lexical p},
                binary = render ` {p \<in> set (emitted (treebank render) corpus). \<not> lexical p}\<rparr>"
    using run by (simp add: extract_emitted treebank_def)
  have tg: "terminal g = render ` {p \<in> set (emitted (treebank render) corpus). lexical p}"
    by (subst g) simp
  have bg: "binary g = render ` {p \<in> set (emitted (treebank render) corpus). \<not> lexical p}"
    by (subst g) simp
  from sent have "set (emitted_sent (treebank render) t) \<subseteq> set (emitted (treebank render) corpus)"
    unfolding set_emitted by (rule UN_upper)
  then have sub: "set (tree_productions t') \<subseteq> set (emitted (treebank render) corpus)"
    by (simp only: em)
  have all: "\<forall>p \<in> set (tree_productions t').
      (lexical p \<longrightarrow> render p \<in> terminal g) \<and> (\<not> lexical p \<longrightarrow> render p \<in> binary g)"
  proof
    fix p
    assume "p \<in> set (tree_productions t')"
    with sub have "p \<in> set (emitted (treebank render) corpus)"
      by (rule subsetD)
    then show "(lexical p \<longrightarrow> render p \<in> terminal g) \<and> (\<not> lexical p \<longrightarrow> render p \<in> binary g)"
      by (simp add: tg bg)
  qed
  from cnf_keeps_labels [OF norm] inner
  have "''CODE'' \<in> lhs ` set (tree_productions t')"
    by (rule subsetD)
  then obtain p where p: "p \<in> set (tree_productions t')" "lhs p = ''CODE''"
    by (auto simp: image_iff)
  from bspec [OF all p(1)] have "render p \<in> terminal g \<or> render p \<in> binary g"
    by (cases "lexical p") simp_all
  with p have ex: "\<exists>p \<in> set (tree_productions t'). lhs p = ''CODE'' \<and>
            (render p \<in> terminal g \<or> render p \<in> binary g)"
    by (intro bexI [of _ p] conjI)
  from em ex all show ?thesis
    by (intro conjI)
qed


theorem inner_code_node_is_processed_witness:
  "extract_productions (treebank arrow_repr) [[inner_code]] =
     Inr \<lparr>terminal = {''SYM -> <p>'', ''VBZ -> sat''},
          binary = {''S -> CODE VP'', ''CODE -> SYM'', ''VP -> VBZ''}\<rparr> \<and>
   inner_code \<in> set (concat [[inner_code]]) \<and>
   tree_label inner_code \<noteq> ''CODE'' \<and>
   ''CODE'' \<in> set (labels inner_code) \<and>
   cnf inner_code = Inr inner_code \<and>
   emitted_sent (treebank arrow_repr) inner_code = tree_productions inner_code \<and>
   Production ''CODE'' [Nonterminal ''SYM''] \<in> set (tree_productions inner_code) \<and>
   arrow_repr (Production ''CODE'' [Nonterminal ''SYM'']) = ''CODE -> SYM'' \<and>
   ''CODE -> SYM'' \<in> {''S -> CODE VP'', ''CODE -> SYM'', ''VP -> VBZ''}"
proof -
  let ?g = "\<lparr>terminal = {''SYM -> <p>'', ''VBZ -> sat''},
          binary = {''S -> CODE VP'', ''CODE -> SYM'', ''VP -> VBZ''}\<rparr>"
  let ?p = "Production ''CODE'' [Nonterminal ''SYM'']"
  have norm: "cnf inner_code = Inr inner_code"
    by (simp add: inner_code_def leaf_def binarize_def)
  have run: "extract_productions (treebank arrow_repr) [[inner_code]] = Inr ?g"
    by (simp add: extract_productions_def accumulate_def process_sent_def try_block_def
        treebank_def inner_code_def leaf_def binarize_def add_production_def
        lexical_def arrow_repr_def insert_commute)
  have sent: "inner_code \<in> set (concat [[inner_code]])" by simp
  have root: "tree_label inner_code \<noteq> ''CODE''" by (simp add: inner_code_def)
  have inner: "''CODE'' \<in> set (labels inner_code)" by (simp add: inner_code_def leaf_def)
  have p: "?p \<in> set (tree_productions inner_code)" by (simp add: inner_code_def leaf_def)
  have nonlex: "\<not> lexical ?p" by (simp add: lexical_def)
  have str: "arrow_repr ?p = ''CODE -> SYM''" by (simp add: arrow_repr_def)
  note inst = inner_code_node_is_processed [OF run sent root inner norm]
  from inst have em: "emitted_sent (treebank arrow_repr) inner_code = tree_productions inner_code"
    by (rule conjunct1)
  from inst have "\<forall>p \<in> set (tree_productions inner_code).
      (lexical p \<longrightarrow> arrow_repr p \<in> terminal ?g) \<and> (\<not> lexical p \<longrightarrow> arrow_repr p \<in> binary ?g)"
    by (elim conjE)
  from bspec [OF this p] have "\<not> lexical ?p \<longrightarrow> arrow_repr ?p \<in> binary ?g"
    by (rule conjunct2)
  from this nonlex have "arrow_repr ?p \<in> binary ?g" by (rule mp)
  then have mem: "''CODE -> SYM'' \<in> {''S -> CODE VP'', ''CODE -> SYM'', ''VP -> VBZ''}"
    unfolding str by simp
  from run sent root inner norm em p str mem show ?thesis by (intro conjI)
qed


end
